theory Spec2Isabelle
  imports Complex_Main "HOL-Library.Word" "HOL-Library.Sublist"
begin

section \<open>Event callbacks of the editor backend (events.go)\<close>

text \<open>
  The file events.go declares six families of events. An event is a slice of callbacks;
  \<open>Add\<close> appends a callback, \<open>Call\<close> (or \<open>call\<close>) walks the slice. Five families
  call every callback; \<open>QueryContextEvent.Call\<close> stops at the first callback whose
  answer is not \<open>Unknown\<close>. The function \<open>init\<close> registers one built-in context-query
  callback.

  Callbacks are Go closures: they may read and change anything they can reach. In the
  embedding a callback is a function on an explicit world state, which it returns
  updated. Everything a dispatcher does to the world it does through the callbacks it
  invokes, so the world after a dispatch records which callbacks ran and in which order.
  The calls to the logging package (\<open>log.Finest\<close>, \<open>log.Fine\<close>, \<open>log.Debug\<close>) only
  write diagnostics and are left out.

  A dispatcher receives the sequence it walks as the value of its receiver. The events
  are package variables all the same, and a callback can reach them: the last
  subsection of the definitions places the variable \<open>OnQueryContext\<close> in the world,
  so that a handler which registers a callback while a resolution runs can be written
  down.

  A callback returns: the dispatchers neither recover from a panic nor bound a
  callback's running time, and a callback that panics takes the dispatch with it.
\<close>

subsection \<open>Values of the Go program\<close>

text \<open>
  \<open>QueryContextReturn\<close> is an \<open>int\<close> with the three constants \<open>True\<close>, \<open>False\<close> and
  \<open>Unknown\<close> (0, 1, 2 by \<open>iota\<close>). The first two names are taken in HOL and carry a
  suffix.
\<close>

datatype QueryContextReturn = True_qc | False_qc | Unknown

text \<open>
  Modelled from the spec: \<open>util.Op\<close> is declared in the package limetext/util, outside
  this repository. The code names \<open>util.OpEqual\<close> and \<open>util.OpNotEqual\<close>; the spec calls
  the type "a small fixed vocabulary (equal, not-equal, and others the host defines)".
  Every other operator is \<open>OpOther n\<close>.
\<close>

datatype Op = OpEqual | OpNotEqual | OpOther nat

text \<open>
  Go's \<open>int\<close> is taken at 64 bits, as on the amd64 and arm64 ports.
\<close>

type_synonym go_int = "64 word"

text \<open>
  A \<open>float64\<close> is a finite number, an infinity or a NaN. Every finite \<open>float64\<close> is a
  rational number; the embedding admits every rational, so what holds for all
  \<open>Finite q\<close> holds for every finite \<open>float64\<close>.
\<close>

datatype float64 = Finite rat | PosInf | NegInf | NaN

text \<open>
  The operand of a context query has the type \<open>interface{}\<close>: a value of any dynamic
  type. \<open>VOther t\<close> stands for a value of any type \<open>t\<close> not listed.
\<close>

datatype operand =
    VFloat64 float64
  | VInt go_int
  | VString string
  | VBool bool
  | VNil
  | VOther string

text \<open>
  Modelled from the spec: the type \<open>View\<close> is declared elsewhere in the package. The
  built-in callback makes two observations of a view: \<open>v.Settings().Bool(name)\<close>, "the
  boolean setting named by the remainder of key on subject", and \<open>v.Sel().Len()\<close>,
  "the subject's current selection count".
\<close>

record View =
  Settings_Bool :: "string \<Rightarrow> bool"
  Sel_Len :: go_int

text \<open>
  Callbacks receive a pointer \<open>*View\<close>. The world holds the views behind the pointers;
  the record is extensible, so the world may hold anything else a callback touches.
\<close>

type_synonym view_ptr = nat

record world =
  views :: "view_ptr \<Rightarrow> View"

subsection \<open>The callback and event types\<close>

type_synonym 'x ViewEventCallback = "view_ptr \<Rightarrow> 'x world_scheme \<Rightarrow> 'x world_scheme"
type_synonym 'x ViewEvent = "'x ViewEventCallback list"

type_synonym 'x QueryContextCallback =
  "view_ptr \<Rightarrow> string \<Rightarrow> Op \<Rightarrow> operand \<Rightarrow> bool \<Rightarrow> 'x world_scheme
     \<Rightarrow> QueryContextReturn \<times> 'x world_scheme"
type_synonym 'x QueryContextEvent = "'x QueryContextCallback list"

subsection \<open>QueryContextEvent\<close>

text \<open>
  \<^verbatim>\<open>func (qe *QueryContextEvent) Add(cb QueryContextCallback) { *qe = append(*qe, cb) }\<close>
\<close>

definition QueryContextEvent_Add :: "'x QueryContextEvent \<Rightarrow> 'x QueryContextCallback \<Rightarrow> 'x QueryContextEvent" where
  "QueryContextEvent_Add qe cb = qe @ [cb]"

text \<open>
  \<^verbatim>\<open>
  for i := range qe {
      r := qe[i](v, key, operator, operand, match_all)
      if r != Unknown { return r }
  }
  return Unknown
  \<close>
  The loop runs over the indices of \<open>qe\<close>. Its state is the index, the slice and the
  world; the result is the value returned, the slice as the loop leaves it and the world
  as the invoked callbacks leave it.
\<close>

function QueryContextEvent_Call_loop ::
  "nat \<Rightarrow> 'x QueryContextEvent \<Rightarrow> view_ptr \<Rightarrow> string \<Rightarrow> Op \<Rightarrow> operand \<Rightarrow> bool
     \<Rightarrow> 'x world_scheme \<Rightarrow> QueryContextReturn \<times> 'x QueryContextEvent \<times> 'x world_scheme" where
  "QueryContextEvent_Call_loop i qe v key operator opd match_all w =
     (if i < length qe then
        (case (qe ! i) v key operator opd match_all w of
           (r, w') \<Rightarrow>
             if r \<noteq> Unknown then (r, qe, w')
             else QueryContextEvent_Call_loop (Suc i) qe v key operator opd match_all w')
      else (Unknown, qe, w))"
  by pat_completeness auto
termination
  by (relation "measure (\<lambda>(i, qe, _). length qe - i)") auto

declare QueryContextEvent_Call_loop.simps [simp del]

definition QueryContextEvent_Call ::
  "'x QueryContextEvent \<Rightarrow> view_ptr \<Rightarrow> string \<Rightarrow> Op \<Rightarrow> operand \<Rightarrow> bool
     \<Rightarrow> 'x world_scheme \<Rightarrow> QueryContextReturn \<times> 'x QueryContextEvent \<times> 'x world_scheme" where
  "QueryContextEvent_Call qe v key operator opd match_all w = QueryContextEvent_Call_loop 0 qe v key operator opd match_all w"

subsection \<open>The multicast events\<close>

text \<open>
  \<^verbatim>\<open>func (ve *ViewEvent) Add(cb ViewEventCallback) { *ve = append(*ve, cb) }\<close>
\<close>

definition ViewEvent_Add :: "'x ViewEvent \<Rightarrow> 'x ViewEventCallback \<Rightarrow> 'x ViewEvent" where
  "ViewEvent_Add ve cb = ve @ [cb]"

text \<open>
  \<^verbatim>\<open>for _, ev := range *ve { ev(v) }\<close>
\<close>

fun ViewEvent_range :: "'x ViewEvent \<Rightarrow> view_ptr \<Rightarrow> 'x world_scheme \<Rightarrow> 'x world_scheme" where
  "ViewEvent_range [] v w = w"
| "ViewEvent_range (ev # evs) v w = ViewEvent_range evs v (ev v w)"

text \<open>
  \<open>Call\<close> reads the slice behind its receiver and never assigns to it: the slice it
  leaves is the slice it found. The callbacks have no result.
\<close>

definition ViewEvent_Call :: "'x ViewEvent \<Rightarrow> view_ptr \<Rightarrow> 'x world_scheme \<Rightarrow> 'x ViewEvent \<times> 'x world_scheme" where
  "ViewEvent_Call ve v w = (ve, ViewEvent_range ve v w)"

text \<open>
  \<open>InitEvent\<close>, \<open>WindowEvent\<close>, \<open>PathEvent\<close> and \<open>ProjectEvent\<close> repeat the two
  methods with other arguments: none, a \<open>*Window\<close>, a path, and a \<open>*Window\<close> with a
  path. A window is only passed on, so a pointer stands for it.
\<close>

type_synonym window_ptr = nat

type_synonym 'x InitCallback = "'x world_scheme \<Rightarrow> 'x world_scheme"
type_synonym 'x InitEvent = "'x InitCallback list"
type_synonym 'x WindowEventCallback = "window_ptr \<Rightarrow> 'x world_scheme \<Rightarrow> 'x world_scheme"
type_synonym 'x WindowEvent = "'x WindowEventCallback list"
type_synonym 'x PathEventCallback = "string \<Rightarrow> 'x world_scheme \<Rightarrow> 'x world_scheme"
type_synonym 'x PathEvent = "'x PathEventCallback list"
type_synonym 'x ProjectEventCallback = "window_ptr \<Rightarrow> string \<Rightarrow> 'x world_scheme \<Rightarrow> 'x world_scheme"
type_synonym 'x ProjectEvent = "'x ProjectEventCallback list"

definition InitEvent_Add :: "'x InitEvent \<Rightarrow> 'x InitCallback \<Rightarrow> 'x InitEvent" where
  "InitEvent_Add ie i = ie @ [i]"

fun InitEvent_range :: "'x InitEvent \<Rightarrow> 'x world_scheme \<Rightarrow> 'x world_scheme" where
  "InitEvent_range [] w = w"
| "InitEvent_range (ev # evs) w = InitEvent_range evs (ev w)"

definition InitEvent_call :: "'x InitEvent \<Rightarrow> 'x world_scheme \<Rightarrow> 'x InitEvent \<times> 'x world_scheme" where
  "InitEvent_call ie w = (ie, InitEvent_range ie w)"

definition WindowEvent_Add :: "'x WindowEvent \<Rightarrow> 'x WindowEventCallback \<Rightarrow> 'x WindowEvent" where
  "WindowEvent_Add we cb = we @ [cb]"

fun WindowEvent_range :: "'x WindowEvent \<Rightarrow> window_ptr \<Rightarrow> 'x world_scheme \<Rightarrow> 'x world_scheme" where
  "WindowEvent_range [] wn w = w"
| "WindowEvent_range (ev # evs) wn w = WindowEvent_range evs wn (ev wn w)"

definition WindowEvent_Call :: "'x WindowEvent \<Rightarrow> window_ptr \<Rightarrow> 'x world_scheme \<Rightarrow> 'x WindowEvent \<times> 'x world_scheme" where
  "WindowEvent_Call we wn w = (we, WindowEvent_range we wn w)"

definition PathEvent_Add :: "'x PathEvent \<Rightarrow> 'x PathEventCallback \<Rightarrow> 'x PathEvent" where
  "PathEvent_Add pe cb = pe @ [cb]"

fun PathEvent_range :: "'x PathEvent \<Rightarrow> string \<Rightarrow> 'x world_scheme \<Rightarrow> 'x world_scheme" where
  "PathEvent_range [] p w = w"
| "PathEvent_range (ev # evs) p w = PathEvent_range evs p (ev p w)"

definition PathEvent_call :: "'x PathEvent \<Rightarrow> string \<Rightarrow> 'x world_scheme \<Rightarrow> 'x PathEvent \<times> 'x world_scheme" where
  "PathEvent_call pe p w = (pe, PathEvent_range pe p w)"

definition ProjectEvent_Add :: "'x ProjectEvent \<Rightarrow> 'x ProjectEventCallback \<Rightarrow> 'x ProjectEvent" where
  "ProjectEvent_Add pe cb = pe @ [cb]"

fun ProjectEvent_range :: "'x ProjectEvent \<Rightarrow> window_ptr \<Rightarrow> string \<Rightarrow> 'x world_scheme \<Rightarrow> 'x world_scheme" where
  "ProjectEvent_range [] wn p w = w"
| "ProjectEvent_range (ev # evs) wn p w = ProjectEvent_range evs wn p (ev wn p w)"

definition ProjectEvent_call :: "'x ProjectEvent \<Rightarrow> window_ptr \<Rightarrow> string \<Rightarrow> 'x world_scheme \<Rightarrow> 'x ProjectEvent \<times> 'x world_scheme" where
  "ProjectEvent_call pe wn p w = (pe, ProjectEvent_range pe wn p w)"

subsection \<open>The built-in context-query callback\<close>

text \<open>
  \<^verbatim>\<open>opf, _ := operand.(float64)\<close>: the two-result type assertion never panics. When the
  dynamic type of the operand is not \<open>float64\<close> it yields the zero value \<open>0.0\<close> and
  \<open>false\<close>.
\<close>

definition assert_float64 :: "operand \<Rightarrow> float64 \<times> bool" where
  "assert_float64 opd = (case opd of VFloat64 f \<Rightarrow> (f, True) | _ \<Rightarrow> (Finite 0, False))"

text \<open>
  \<^verbatim>\<open>op := int(opf)\<close>: the conversion discards the fraction (truncation towards zero).
  When the truncated value does not fit an \<open>int\<close>, or the operand is an infinity or a
  NaN, the Go specification leaves the result to the implementation: the function
  \<open>impl\<close> stands for what the platform yields there.
\<close>

definition trunc_zero :: "rat \<Rightarrow> int" where
  "trunc_zero q = (if 0 \<le> q then \<lfloor>q\<rfloor> else \<lceil>q\<rceil>)"

definition int_of_float64 :: "(float64 \<Rightarrow> go_int) \<Rightarrow> float64 \<Rightarrow> go_int" where
  "int_of_float64 impl f =
     (case f of
        Finite q \<Rightarrow>
          if - (2 ^ 63) \<le> trunc_zero q \<and> trunc_zero q < 2 ^ 63 then word_of_int (trunc_zero q)
          else impl f
      | _ \<Rightarrow> impl f)"

text \<open>
  The closure that \<open>init\<close> registers on \<open>OnQueryContext\<close>. \<open>key[8:]\<close> is in range
  whenever it is evaluated: the prefix \<open>"setting."\<close> has eight bytes. A \<open>switch\<close> with
  no matching \<open>case\<close> falls out to \<open>return Unknown\<close>.
\<close>

definition init_QueryContextCallback :: "(float64 \<Rightarrow> go_int) \<Rightarrow> 'x QueryContextCallback" where
  "init_QueryContextCallback impl v key operator opd match_all w =
     (if prefix ''setting.'' key \<and> operator = OpEqual then
        (if Settings_Bool (views w v) (drop 8 key) then (True_qc, w) else (False_qc, w))
      else if key = ''num_selections'' then
        (let opf = fst (assert_float64 opd);
             op = int_of_float64 impl opf
         in case operator of
              OpEqual \<Rightarrow> if op = Sel_Len (views w v) then (True_qc, w) else (False_qc, w)
            | OpNotEqual \<Rightarrow> if op \<noteq> Sel_Len (views w v) then (True_qc, w) else (False_qc, w)
            | OpOther n \<Rightarrow> (Unknown, w))
      else (Unknown, w))"

subsection \<open>Recording callbacks\<close>

text \<open>
  To observe which callbacks a dispatch invokes, the world is extended by a journal and
  a recording callback writes its name at the end of the journal, as a test double
  would. \<open>H1\<close>, \<open>H2\<close> and \<open>H3\<close> are the three handlers of the specification's
  scenario: always \<open>Unknown\<close>, always a match, always no match.
\<close>

record spy_world = world +
  calls :: "string list"

definition spy :: "string \<Rightarrow> 'y spy_world_ext ViewEventCallback" where
  "spy name v w = w\<lparr>calls := calls w @ [name]\<rparr>"

definition answering :: "string \<Rightarrow> QueryContextReturn \<Rightarrow> 'y spy_world_ext QueryContextCallback" where
  "answering name r v key operator opd match_all w = (r, w\<lparr>calls := calls w @ [name]\<rparr>)"

definition H1 :: "'y spy_world_ext QueryContextCallback" where
  "H1 = answering ''H1'' Unknown"

definition H2 :: "'y spy_world_ext QueryContextCallback" where
  "H2 = answering ''H2'' True_qc"

definition H3 :: "'y spy_world_ext QueryContextCallback" where
  "H3 = answering ''H3'' False_qc"

text \<open>
  The operands that are numbers in Go: the \<open>float64\<close> the callback asks for and the
  integers it does not accept.
\<close>

fun numeric :: "operand \<Rightarrow> bool" where
  "numeric (VFloat64 f) = True"
| "numeric (VInt n) = True"
| "numeric opd = False"

text \<open>
  A view whose only setting that is on can be \<open>wrap\<close>, with a given number of
  selections, and a world in which every pointer leads to it and the journal is empty.
\<close>

definition example_view :: "bool \<Rightarrow> go_int \<Rightarrow> View" where
  "example_view wrap n = \<lparr>Settings_Bool = (\<lambda>name. name = ''wrap'' \<and> wrap), Sel_Len = n\<rparr>"

definition example_world :: "bool \<Rightarrow> go_int \<Rightarrow> spy_world" where
  "example_world wrap n = \<lparr>views = (\<lambda>p. example_view wrap n), calls = []\<rparr>"

text \<open>
  The \<open>float64\<close> that the literal \<open>2.9\<close> denotes: the nearest double,
  \<open>0x1.7333333333333p+1\<close>, that is 6530219459687219 over the 51st power of 2.
\<close>

definition float64_2_9 :: float64 where
  "float64_2_9 = Finite (6530219459687219 / 2251799813685248)"

subsection \<open>The variable OnQueryContext\<close>







section \<open>Properties\<close>

subsection \<open>The loop of the context query\<close>

lemma QueryContextEvent_Call_loop_frame:
  "fst (snd (QueryContextEvent_Call_loop i qe v key operator opd match_all w)) = qe"
proof (induction i qe v key operator opd match_all w rule: QueryContextEvent_Call_loop.induct)
  case (1 i qe v key operator opd match_all w)
  show ?case
  proof (cases "i < length qe")
    case False
    then show ?thesis by (simp add: QueryContextEvent_Call_loop.simps [of i])
  next
    case True
    obtain r w' where h: "(qe ! i) v key operator opd match_all w = (r, w')"
      by (cases "(qe ! i) v key operator opd match_all w")
    show ?thesis
    proof (cases "r = Unknown")
      case True
      with \<open>i < length qe\<close> h "1.IH" show ?thesis
        by (simp add: QueryContextEvent_Call_loop.simps [of i])
    next
      case False
      with \<open>i < length qe\<close> h show ?thesis
        by (simp add: QueryContextEvent_Call_loop.simps [of i])
    qed
  qed
qed

lemma QueryContextEvent_Call_loop_decisive:
  assumes "k < length qe" and "i \<le> k"
    and "\<forall>j. i \<le> j \<and> j < k \<longrightarrow> (qe ! j) v key operator opd match_all (ws j) = (Unknown, ws (Suc j))"
    and "(qe ! k) v key operator opd match_all (ws k) = (r, w')" and "r \<noteq> Unknown"
  shows "QueryContextEvent_Call_loop i qe v key operator opd match_all (ws i) = (r, qe, w')"
  using assms
proof (induction "k - i" arbitrary: i)
  case 0
  then have "i = k" by simp
  with 0 show ?case by (simp add: QueryContextEvent_Call_loop.simps [of k])
next
  case (Suc n)
  then have lt: "i < k" by simp
  with Suc.prems have step: "(qe ! i) v key operator opd match_all (ws i) = (Unknown, ws (Suc i))"
    by simp
  have "QueryContextEvent_Call_loop (Suc i) qe v key operator opd match_all (ws (Suc i)) = (r, qe, w')"
    using Suc.hyps(1) [of "Suc i"] Suc.hyps(2) Suc.prems lt by simp
  with step lt Suc.prems(1) show ?case
    by (simp add: QueryContextEvent_Call_loop.simps [of i])
qed

lemma QueryContextEvent_Call_loop_all_Unknown:
  assumes "i \<le> length qe"
    and "\<forall>j. i \<le> j \<and> j < length qe \<longrightarrow> (qe ! j) v key operator opd match_all (ws j) = (Unknown, ws (Suc j))"
  shows "QueryContextEvent_Call_loop i qe v key operator opd match_all (ws i) = (Unknown, qe, ws (length qe))"
  using assms
proof (induction "length qe - i" arbitrary: i)
  case 0
  then have "i = length qe" by simp
  then show ?case by (simp add: QueryContextEvent_Call_loop.simps [of "length qe"])
next
  case (Suc n)
  then have lt: "i < length qe" by simp
  with Suc.prems have step: "(qe ! i) v key operator opd match_all (ws i) = (Unknown, ws (Suc i))"
    by simp
  have "QueryContextEvent_Call_loop (Suc i) qe v key operator opd match_all (ws (Suc i)) = (Unknown, qe, ws (length qe))"
    using Suc.hyps(1) [of "Suc i"] Suc.hyps(2) Suc.prems lt by simp
  with step lt show ?case
    by (simp add: QueryContextEvent_Call_loop.simps [of i])
qed

lemma QueryContextEvent_Call_loop_Cons:
  "QueryContextEvent_Call_loop (Suc i) (h # hs) v key operator opd match_all w =
     (case QueryContextEvent_Call_loop i hs v key operator opd match_all w of
        (r, _, w') \<Rightarrow> (r, h # hs, w'))"
proof (induction i hs v key operator opd match_all w rule: QueryContextEvent_Call_loop.induct)
  case (1 i qe v key operator opd match_all w)
  show ?case
  proof (cases "i < length qe")
    case False
    then show ?thesis
      by (simp add: QueryContextEvent_Call_loop.simps [of i] QueryContextEvent_Call_loop.simps [of "Suc i"])
  next
    case True
    obtain r w' where h: "(qe ! i) v key operator opd match_all w = (r, w')"
      by (cases "(qe ! i) v key operator opd match_all w")
    show ?thesis
    proof (cases "r = Unknown")
      case True
      with \<open>i < length qe\<close> h "1.IH" show ?thesis
        by (simp add: QueryContextEvent_Call_loop.simps [of i] QueryContextEvent_Call_loop.simps [of "Suc i"])
    next
      case False
      with \<open>i < length qe\<close> h show ?thesis
        by (simp add: QueryContextEvent_Call_loop.simps [of i] QueryContextEvent_Call_loop.simps [of "Suc i"])
    qed
  qed
qed

lemma QueryContextEvent_Call_Nil: "QueryContextEvent_Call [] v key operator opd match_all w = (Unknown, [], w)"
  by (simp add: QueryContextEvent_Call_def QueryContextEvent_Call_loop.simps [of 0])

lemma QueryContextEvent_Call_Cons:
  "QueryContextEvent_Call (h # hs) v key operator opd match_all w =
     (case h v key operator opd match_all w of
        (r, w') \<Rightarrow>
          if r \<noteq> Unknown then (r, h # hs, w')
          else (case QueryContextEvent_Call hs v key operator opd match_all w' of
                  (r', _, w'') \<Rightarrow> (r', h # hs, w'')))"
  by (simp add: QueryContextEvent_Call_def QueryContextEvent_Call_loop.simps [of 0 "h # hs"] QueryContextEvent_Call_loop_Cons
      split: prod.splits)

lemma QueryContextEvent_Call_frame:
  "fst (snd (QueryContextEvent_Call qe v key operator opd match_all w)) = qe"
  by (simp add: QueryContextEvent_Call_def QueryContextEvent_Call_loop_frame)

lemma QueryContextEvent_Call_append:
  "QueryContextEvent_Call (xs @ ys) v key operator opd match_all w =
     (case QueryContextEvent_Call xs v key operator opd match_all w of
        (r, _, w1) \<Rightarrow>
          if r \<noteq> Unknown then (r, xs @ ys, w1)
          else (case QueryContextEvent_Call ys v key operator opd match_all w1 of
                  (r', _, w2) \<Rightarrow> (r', xs @ ys, w2)))"
proof (induction xs arbitrary: w)
  case Nil
  obtain r a b where ys: "QueryContextEvent_Call ys v key operator opd match_all w = (r, a, b)"
    by (cases "QueryContextEvent_Call ys v key operator opd match_all w")
  with QueryContextEvent_Call_frame [of ys v key operator opd match_all w] have "a = ys"
    by simp
  with ys show ?case
    by (simp add: QueryContextEvent_Call_Nil)
next
  case (Cons x xs)
  show ?case
    by (simp add: QueryContextEvent_Call_Cons Cons.IH split: prod.splits)
qed


subsection \<open>Resolving a context query\<close>

text \<open>
  C1. Resolving a query calls the handlers in registration order and returns the answer
  of the first handler that answers \<open>True\<close> (a match) or \<open>False\<close> (no match); no
  handler registered after it is invoked. Let \<open>ws j\<close> be the world in which the handler
  at index \<open>j\<close> is invoked, starting from \<open>w\<close>: when the handlers before index \<open>k\<close>
  answer \<open>Unknown\<close>, each handing its world to the next, and the handler at \<open>k\<close>
  answers \<open>r\<close>, a match or no match, leaving the world \<open>w'\<close>, the resolution returns
  \<open>r\<close> and leaves exactly \<open>w'\<close>, whatever handlers follow. With \<open>H1\<close>, \<open>H2\<close>,
  \<open>H3\<close> registered in that order the answer is a match and the journal gains \<open>H1\<close> and
  \<open>H2\<close> only; registered as \<open>H2\<close>, \<open>H1\<close>, \<open>H3\<close> the answer is a match after
  \<open>H2\<close> alone; registered as \<open>H3\<close>, \<open>H1\<close>, \<open>H2\<close> the answer is no match after
  \<open>H3\<close> alone.
\<close>

theorem QueryContextEvent_Call_first_answer:
  "(k < length qe \<and> ws 0 = w \<and>
      (\<forall>j<k. (qe ! j) v key operator opd match_all (ws j) = (Unknown, ws (Suc j))) \<and>
      (qe ! k) v key operator opd match_all (ws k) = (r, w') \<and> (r = True_qc \<or> r = False_qc)
     \<longrightarrow> QueryContextEvent_Call qe v key operator opd match_all w = (r, qe, w'))
   \<and> QueryContextEvent_Call
         (QueryContextEvent_Add (QueryContextEvent_Add (QueryContextEvent_Add [] H1) H2) H3)
         v key operator opd match_all s
       = (True_qc, [H1, H2, H3], s\<lparr>calls := calls s @ [''H1'', ''H2'']\<rparr>)
   \<and> QueryContextEvent_Call
         (QueryContextEvent_Add (QueryContextEvent_Add (QueryContextEvent_Add [] H2) H1) H3)
         v key operator opd match_all s
       = (True_qc, [H2, H1, H3], s\<lparr>calls := calls s @ [''H2'']\<rparr>)
   \<and> QueryContextEvent_Call
         (QueryContextEvent_Add (QueryContextEvent_Add (QueryContextEvent_Add [] H3) H1) H2)
         v key operator opd match_all s
       = (False_qc, [H3, H1, H2], s\<lparr>calls := calls s @ [''H3'']\<rparr>)"
proof -
  have general: "QueryContextEvent_Call qe v key operator opd match_all w = (r, qe, w')"
    if "k < length qe" and "ws 0 = w"
      and "\<forall>j<k. (qe ! j) v key operator opd match_all (ws j) = (Unknown, ws (Suc j))"
      and "(qe ! k) v key operator opd match_all (ws k) = (r, w')"
      and "r = True_qc \<or> r = False_qc"
  proof -
    from that(5) have "r \<noteq> Unknown" by auto
    with that QueryContextEvent_Call_loop_decisive [of k qe 0 v key operator opd match_all ws r w']
    show ?thesis by (simp add: QueryContextEvent_Call_def)
  qed
  have s1: "QueryContextEvent_Call [H1, H2, H3] v key operator opd match_all s
              = (True_qc, [H1, H2, H3], s\<lparr>calls := calls s @ [''H1'', ''H2'']\<rparr>)"
    by (simp add: QueryContextEvent_Call_Cons H1_def H2_def answering_def)
  have s2: "QueryContextEvent_Call [H2, H1, H3] v key operator opd match_all s
              = (True_qc, [H2, H1, H3], s\<lparr>calls := calls s @ [''H2'']\<rparr>)"
    by (simp add: QueryContextEvent_Call_Cons H2_def answering_def)
  have s3: "QueryContextEvent_Call [H3, H1, H2] v key operator opd match_all s
              = (False_qc, [H3, H1, H2], s\<lparr>calls := calls s @ [''H3'']\<rparr>)"
    by (simp add: QueryContextEvent_Call_Cons H3_def answering_def)
  from general s1 s2 s3 show ?thesis
    by (simp add: QueryContextEvent_Add_def)
qed

theorem QueryContextEvent_Call_first_answer_witness:
  "H1 0 ''vi_mode'' OpEqual VNil False (example_world False 0)
     = (Unknown, (example_world False 0)\<lparr>calls := [''H1'']\<rparr>)
   \<and> H2 0 ''vi_mode'' OpEqual VNil False ((example_world False 0)\<lparr>calls := [''H1'']\<rparr>)
     = (True_qc, (example_world False 0)\<lparr>calls := [''H1'', ''H2'']\<rparr>)
   \<and> QueryContextEvent_Call [H1, H2, H3] 0 ''vi_mode'' OpEqual VNil False (example_world False 0)
     = (True_qc, [H1, H2, H3], (example_world False 0)\<lparr>calls := [''H1'', ''H2'']\<rparr>)"
  using QueryContextEvent_Call_first_answer [of 1 "[H1, H2, H3]" "\<lambda>j. (example_world False 0)\<lparr>calls := take j [''H1'', ''H2'']\<rparr>"
      "example_world False 0" 0 "''vi_mode''" OpEqual VNil False True_qc
      "(example_world False 0)\<lparr>calls := [''H1'', ''H2'']\<rparr>" "example_world False 0"]
  by (simp add: H1_def H2_def answering_def example_world_def)

text \<open>
  C4. When every registered handler answers \<open>Unknown\<close> in the world in which it is
  invoked, the resolution returns \<open>Unknown\<close> after the last of them; with no handler
  registered it returns \<open>Unknown\<close> at once. \<open>Unknown\<close> is a value of the result type:
  the resolution has no error result.
\<close>

theorem QueryContextEvent_Call_all_Unknown:
  "(ws 0 = w \<and>
      (\<forall>j<length qe. (qe ! j) v key operator opd match_all (ws j) = (Unknown, ws (Suc j)))
     \<longrightarrow> QueryContextEvent_Call qe v key operator opd match_all w = (Unknown, qe, ws (length qe)))
   \<and> QueryContextEvent_Call [] v key operator opd match_all w = (Unknown, [], w)"
proof -
  have "QueryContextEvent_Call qe v key operator opd match_all w = (Unknown, qe, ws (length qe))"
    if "ws 0 = w"
      and "\<forall>j<length qe. (qe ! j) v key operator opd match_all (ws j) = (Unknown, ws (Suc j))"
    using that QueryContextEvent_Call_loop_all_Unknown [of 0 qe v key operator opd match_all ws]
    by (simp add: QueryContextEvent_Call_def)
  then show ?thesis
    by (simp add: QueryContextEvent_Call_Nil)
qed

theorem QueryContextEvent_Call_all_Unknown_witness:
  "H1 0 ''vi_mode'' OpEqual VNil False (example_world False 0)
     = (Unknown, (example_world False 0)\<lparr>calls := [''H1'']\<rparr>)
   \<and> H1 0 ''vi_mode'' OpEqual VNil False ((example_world False 0)\<lparr>calls := [''H1'']\<rparr>)
     = (Unknown, (example_world False 0)\<lparr>calls := [''H1'', ''H1'']\<rparr>)
   \<and> QueryContextEvent_Call [H1, H1] 0 ''vi_mode'' OpEqual VNil False (example_world False 0)
     = (Unknown, [H1, H1], (example_world False 0)\<lparr>calls := [''H1'', ''H1'']\<rparr>)"
  using QueryContextEvent_Call_all_Unknown [of "\<lambda>j. (example_world False 0)\<lparr>calls := replicate j ''H1''\<rparr>"
      "example_world False 0" "[H1, H1]" 0 "''vi_mode''" OpEqual VNil False]
  by (simp add: H1_def answering_def example_world_def All_less_Suc numeral_2_eq_2)




subsection \<open>The built-in callback\<close>

lemma coerce_not_float64:
  "int_of_float64 impl (fst (assert_float64 (VInt n))) = 0"
  "int_of_float64 impl (fst (assert_float64 (VString s))) = 0"
  "int_of_float64 impl (fst (assert_float64 (VBool b))) = 0"
  "int_of_float64 impl (fst (assert_float64 VNil)) = 0"
  "int_of_float64 impl (fst (assert_float64 (VOther t))) = 0"
  by (simp_all add: assert_float64_def int_of_float64_def trunc_zero_def)

lemma trunc_zero_towards_zero:
  "\<bar>of_int (trunc_zero q)\<bar> \<le> \<bar>q\<bar> \<and> \<bar>q\<bar> < \<bar>of_int (trunc_zero q)\<bar> + 1 \<and> 0 \<le> of_int (trunc_zero q) * q"
proof (cases "0 \<le> q")
  case True
  then have "0 \<le> \<lfloor>q\<rfloor>" by simp
  with True show ?thesis
    by (simp add: trunc_zero_def abs_if) linarith
next
  case False
  then have neg: "q < 0" by simp
  then have c0: "\<lceil>q\<rceil> \<le> 0" by (simp add: ceiling_le_zero)
  then have c0': "(of_int \<lceil>q\<rceil> :: rat) \<le> 0" by simp
  have up: "q \<le> of_int \<lceil>q\<rceil>" by (rule le_of_int_ceiling)
  have low: "of_int \<lceil>q\<rceil> - 1 < q" using ceiling_correct [of q] by simp
  have prod: "0 \<le> of_int \<lceil>q\<rceil> * q"
    using c0' neg by (simp add: mult_nonpos_nonpos)
  have a1: "\<bar>of_int \<lceil>q\<rceil> :: rat\<bar> = - of_int \<lceil>q\<rceil>" using c0' by simp
  have a2: "\<bar>q\<bar> = - q" using neg by simp
  from up low prod show ?thesis
    unfolding trunc_zero_def using False by (simp add: a1 a2)
qed

lemma trunc_zero_2_9: "trunc_zero (6530219459687219 / 2251799813685248) = 2"
  by (simp add: trunc_zero_def floor_eq_iff)

lemma sint_int_of_float64: "-(2 ^ 63) \<le> trunc_zero q \<and> trunc_zero q < 2 ^ 63 \<Longrightarrow> sint (int_of_float64 impl (Finite q)) = trunc_zero q"
proof -
  assume r: "-(2 ^ 63) \<le> trunc_zero q \<and> trunc_zero q < 2 ^ 63"
  then have "signed_take_bit 63 (trunc_zero q) = trunc_zero q"
    by (intro signed_take_bit_int_eq_self) simp_all
  with r show ?thesis
    by (simp add: int_of_float64_def sint_sbintrunc')
qed

text \<open>
  C2. On a key that starts with \<open>"setting."\<close> and the equality operator, the built-in
  callback answers with the boolean setting that the rest of the key names on the view
  behind the pointer: a match when it is true, no match when it is false, for every
  operand and every \<open>match_all\<close>. On such a key and any other operator it answers
  \<open>Unknown\<close>. The world is left as it was.
\<close>

theorem init_QueryContextCallback_setting:
  "(prefix ''setting.'' key \<longrightarrow>
      init_QueryContextCallback impl v key OpEqual opd match_all w
        = (if Settings_Bool (views w v) (drop 8 key) then True_qc else False_qc, w))
   \<and> (prefix ''setting.'' key \<and> operator \<noteq> OpEqual \<longrightarrow>
      init_QueryContextCallback impl v key operator opd match_all w = (Unknown, w))"
proof -
  have "key \<noteq> ''num_selections''" if "prefix ''setting.'' key"
    using that by auto
  then show ?thesis
    by (simp add: init_QueryContextCallback_def)
qed

theorem init_QueryContextCallback_setting_witness:
  "prefix ''setting.'' ''setting.wrap''
   \<and> init_QueryContextCallback (\<lambda>f. 0) 0 ''setting.wrap'' OpEqual VNil False (example_world True 2)
       = (True_qc, example_world True 2)
   \<and> init_QueryContextCallback (\<lambda>f. 0) 0 ''setting.wrap'' OpEqual VNil False (example_world False 2)
       = (False_qc, example_world False 2)
   \<and> OpNotEqual \<noteq> OpEqual
   \<and> init_QueryContextCallback (\<lambda>f. 0) 0 ''setting.wrap'' OpNotEqual VNil False (example_world True 2)
       = (Unknown, example_world True 2)"
  using init_QueryContextCallback_setting [of "''setting.wrap''" "\<lambda>f. 0" 0 VNil False "example_world True 2" OpNotEqual]
    init_QueryContextCallback_setting [of "''setting.wrap''" "\<lambda>f. 0" 0 VNil False "example_world False 2" OpNotEqual]
  by (simp add: example_world_def example_view_def)

text \<open>
  C3. On the key \<open>"num_selections"\<close> the built-in callback converts the operand to an
  \<open>int\<close> and compares it with the number of selections of the view: under the
  equality operator it answers a match exactly when the two are equal, under the
  inequality operator exactly when they differ, and under any other operator
  \<open>Unknown\<close>. On a key that neither starts with \<open>"setting."\<close> nor is
  \<open>"num_selections"\<close> it answers \<open>Unknown\<close>.
\<close>

theorem init_QueryContextCallback_num_selections:
  "init_QueryContextCallback impl v ''num_selections'' OpEqual opd match_all w
     = (if int_of_float64 impl (fst (assert_float64 opd)) = Sel_Len (views w v)
        then True_qc else False_qc, w)
   \<and> init_QueryContextCallback impl v ''num_selections'' OpNotEqual opd match_all w
     = (if int_of_float64 impl (fst (assert_float64 opd)) \<noteq> Sel_Len (views w v)
        then True_qc else False_qc, w)
   \<and> init_QueryContextCallback impl v ''num_selections'' (OpOther n) opd match_all w = (Unknown, w)
   \<and> (\<not> prefix ''setting.'' key \<and> key \<noteq> ''num_selections'' \<longrightarrow>
        init_QueryContextCallback impl v key operator opd match_all w = (Unknown, w))"
  by (simp add: init_QueryContextCallback_def)

theorem init_QueryContextCallback_num_selections_witness:
  "\<not> prefix ''setting.'' ''vi_mode'' \<and> ''vi_mode'' \<noteq> ''num_selections''
   \<and> init_QueryContextCallback (\<lambda>f. 0) 0 ''vi_mode'' OpEqual (VFloat64 (Finite 2)) False (example_world False 2)
       = (Unknown, example_world False 2)
   \<and> init_QueryContextCallback (\<lambda>f. 0) 0 ''num_selections'' OpEqual (VFloat64 (Finite 2)) False (example_world False 2)
       = (True_qc, example_world False 2)
   \<and> init_QueryContextCallback (\<lambda>f. 0) 0 ''num_selections'' OpEqual (VFloat64 (Finite 3)) False (example_world False 2)
       = (False_qc, example_world False 2)
   \<and> init_QueryContextCallback (\<lambda>f. 0) 0 ''num_selections'' OpNotEqual (VFloat64 (Finite 3)) False (example_world False 2)
       = (True_qc, example_world False 2)"
  using init_QueryContextCallback_num_selections [of "\<lambda>f. 0" 0 "VFloat64 (Finite 2)" False "example_world False 2" 0 "''vi_mode''" OpEqual]
    init_QueryContextCallback_num_selections [of "\<lambda>f. 0" 0 "VFloat64 (Finite 3)" False "example_world False 2" 0 "''vi_mode''" OpEqual]
  by (simp add: example_world_def example_view_def assert_float64_def int_of_float64_def trunc_zero_def)

text \<open>
  C6. On the key \<open>"num_selections"\<close> an operand that is not a number is converted to
  0 without any error, and the comparison goes on with 0: equality matches exactly the
  views with no selection, inequality exactly the others.
\<close>

theorem init_QueryContextCallback_operand_mismatch:
  "\<not> numeric opd \<longrightarrow>
     int_of_float64 impl (fst (assert_float64 opd)) = 0
     \<and> init_QueryContextCallback impl v ''num_selections'' OpEqual opd match_all w
         = (if Sel_Len (views w v) = 0 then True_qc else False_qc, w)
     \<and> init_QueryContextCallback impl v ''num_selections'' OpNotEqual opd match_all w
         = (if Sel_Len (views w v) \<noteq> 0 then True_qc else False_qc, w)"
proof (cases opd)
  case (VFloat64 f)
  then show ?thesis by simp
next
  case (VInt n)
  then show ?thesis by simp
qed (auto simp add: init_QueryContextCallback_def coerce_not_float64)

theorem init_QueryContextCallback_operand_mismatch_witness:
  "\<not> numeric (VString ''two'')
   \<and> int_of_float64 (\<lambda>f. 7) (fst (assert_float64 (VString ''two''))) = 0
   \<and> init_QueryContextCallback (\<lambda>f. 7) 0 ''num_selections'' OpEqual (VString ''two'') False (example_world False 2)
       = (False_qc, example_world False 2)
   \<and> init_QueryContextCallback (\<lambda>f. 7) 0 ''num_selections'' OpEqual (VString ''two'') False (example_world False 0)
       = (True_qc, example_world False 0)
   \<and> init_QueryContextCallback (\<lambda>f. 7) 0 ''num_selections'' OpNotEqual (VString ''two'') False (example_world False 2)
       = (True_qc, example_world False 2)"
  using init_QueryContextCallback_operand_mismatch [of "VString ''two''" "\<lambda>f. 7" 0 False "example_world False 2"]
    init_QueryContextCallback_operand_mismatch [of "VString ''two''" "\<lambda>f. 7" 0 False "example_world False 0"]
  by (simp add: example_world_def example_view_def)

text \<open>
  C7. The conversion of the operand accepts a \<open>float64\<close> only: an operand of any other
  type, an integer among them, is converted to 0, so an integer operand matches under
  equality exactly the views with no selection. A \<open>float64\<close> whose truncation fits an
  \<open>int\<close> is converted to its truncation towards zero: the integer that is no larger
  in magnitude, less than one away and of the same sign. The operand \<open>2.9\<close> compares
  as 2.
\<close>

theorem init_QueryContextCallback_operand_coercion:
  "fst (assert_float64 (VFloat64 f)) = f
   \<and> int_of_float64 impl (fst (assert_float64 (VInt n))) = 0
   \<and> int_of_float64 impl (fst (assert_float64 (VString s))) = 0
   \<and> int_of_float64 impl (fst (assert_float64 (VBool b))) = 0
   \<and> int_of_float64 impl (fst (assert_float64 VNil)) = 0
   \<and> int_of_float64 impl (fst (assert_float64 (VOther t))) = 0
   \<and> init_QueryContextCallback impl v ''num_selections'' OpEqual (VInt n) match_all w
       = (if Sel_Len (views w v) = 0 then True_qc else False_qc, w)
   \<and> (- (2 ^ 63) \<le> trunc_zero q \<and> trunc_zero q < 2 ^ 63 \<longrightarrow>
        sint (int_of_float64 impl (fst (assert_float64 (VFloat64 (Finite q))))) = trunc_zero q)
   \<and> \<bar>of_int (trunc_zero q)\<bar> \<le> \<bar>q\<bar> \<and> \<bar>q\<bar> < \<bar>of_int (trunc_zero q)\<bar> + 1
   \<and> 0 \<le> of_int (trunc_zero q) * q"
proof -
  have a: "fst (assert_float64 (VFloat64 g)) = g" for g
    by (simp add: assert_float64_def)
  have b: "init_QueryContextCallback impl v ''num_selections'' OpEqual (VInt n) match_all w
             = (if Sel_Len (views w v) = 0 then True_qc else False_qc, w)"
    by (auto simp add: init_QueryContextCallback_def coerce_not_float64)
  from a b show ?thesis
    using sint_int_of_float64 [of q impl] trunc_zero_towards_zero [of q]
    by (simp add: coerce_not_float64)
qed

theorem init_QueryContextCallback_operand_coercion_witness:
  "- (2 ^ 63) \<le> trunc_zero (6530219459687219 / 2251799813685248) \<and> trunc_zero (6530219459687219 / 2251799813685248) < 2 ^ 63
   \<and> sint (int_of_float64 (\<lambda>f. 7) (fst (assert_float64 (VFloat64 float64_2_9)))) = 2
   \<and> init_QueryContextCallback (\<lambda>f. 7) 0 ''num_selections'' OpEqual (VFloat64 float64_2_9) False
        (example_world False 2)
       = (True_qc, example_world False 2)
   \<and> init_QueryContextCallback (\<lambda>f. 7) 0 ''num_selections'' OpEqual (VInt 2) False (example_world False 2)
       = (False_qc, example_world False 2)"
  using init_QueryContextCallback_operand_coercion [of float64_2_9 "\<lambda>f. 7" 2 "''s''" True "''t''" 0 False "example_world False 2"
      "6530219459687219 / 2251799813685248"]
  by (simp add: trunc_zero_2_9 init_QueryContextCallback_def int_of_float64_def assert_float64_def
      float64_2_9_def example_world_def example_view_def)

subsection \<open>The multicast events\<close>

lemma ViewEvent_registered: "foldl ViewEvent_Add ve cs = ve @ cs"
  by (induction cs arbitrary: ve) (simp_all add: ViewEvent_Add_def)

lemma InitEvent_registered: "foldl InitEvent_Add ie cs = ie @ cs"
  by (induction cs arbitrary: ie) (simp_all add: InitEvent_Add_def)

lemma WindowEvent_registered: "foldl WindowEvent_Add we cs = we @ cs"
  by (induction cs arbitrary: we) (simp_all add: WindowEvent_Add_def)

lemma PathEvent_registered: "foldl PathEvent_Add pe cs = pe @ cs"
  by (induction cs arbitrary: pe) (simp_all add: PathEvent_Add_def)

lemma ProjectEvent_registered: "foldl ProjectEvent_Add pe cs = pe @ cs"
  by (induction cs arbitrary: pe) (simp_all add: ProjectEvent_Add_def)

lemma ViewEvent_range_foldl: "ViewEvent_range ve v w = foldl (\<lambda>w c. c v w) w ve"
  by (induction ve arbitrary: w) simp_all

lemma InitEvent_range_foldl: "InitEvent_range ie w = foldl (\<lambda>w c. c w) w ie"
  by (induction ie arbitrary: w) simp_all

lemma WindowEvent_range_foldl: "WindowEvent_range we wn w = foldl (\<lambda>w c. c wn w) w we"
  by (induction we arbitrary: w) simp_all

lemma PathEvent_range_foldl: "PathEvent_range pe p w = foldl (\<lambda>w c. c p w) w pe"
  by (induction pe arbitrary: w) simp_all

lemma ProjectEvent_range_foldl: "ProjectEvent_range pe wn p w = foldl (\<lambda>w c. c wn p w) w pe"
  by (induction pe arbitrary: w) simp_all

lemma ViewEvent_range_spy: "calls (ViewEvent_range (map spy names) v s) = calls s @ names"
  by (induction names arbitrary: s) (simp_all add: spy_def)

text \<open>
  C5. Registering the callbacks \<open>cs\<close> one after the other appends them to the
  sequence in that order, and firing the event invokes the callbacks of the sequence one
  after the other, each once and each on the world its predecessor left, in the order of
  registration. This holds for the five multicast families. For recording callbacks the
  journal gains their names in the order of registration. The callbacks have no result,
  so there is none to discard.
\<close>

theorem multicast_Call_registration_order:
  "foldl ViewEvent_Add ve cs = ve @ cs
   \<and> ViewEvent_Call (foldl ViewEvent_Add ve cs) v w = (ve @ cs, foldl (\<lambda>w c. c v w) w (ve @ cs))
   \<and> calls (snd (ViewEvent_Call (foldl ViewEvent_Add [] (map spy names)) v s)) = calls s @ names
   \<and> foldl InitEvent_Add ie ics = ie @ ics
   \<and> InitEvent_call (foldl InitEvent_Add ie ics) w = (ie @ ics, foldl (\<lambda>w c. c w) w (ie @ ics))
   \<and> foldl WindowEvent_Add we wcs = we @ wcs
   \<and> WindowEvent_Call (foldl WindowEvent_Add we wcs) wn w
       = (we @ wcs, foldl (\<lambda>w c. c wn w) w (we @ wcs))
   \<and> foldl PathEvent_Add pe pcs = pe @ pcs
   \<and> PathEvent_call (foldl PathEvent_Add pe pcs) p w = (pe @ pcs, foldl (\<lambda>w c. c p w) w (pe @ pcs))
   \<and> foldl ProjectEvent_Add je jcs = je @ jcs
   \<and> ProjectEvent_call (foldl ProjectEvent_Add je jcs) wn p w
       = (je @ jcs, foldl (\<lambda>w c. c wn p w) w (je @ jcs))"
proof -
  have view: "ViewEvent_Call (foldl ViewEvent_Add ve cs) v w = (ve @ cs, foldl (\<lambda>w c. c v w) w (ve @ cs))"
    by (simp only: ViewEvent_registered ViewEvent_Call_def ViewEvent_range_foldl)
  have journal: "calls (snd (ViewEvent_Call (foldl ViewEvent_Add [] (map spy names)) v s)) = calls s @ names"
    by (simp add: ViewEvent_registered ViewEvent_Call_def ViewEvent_range_spy)
  have init: "InitEvent_call (foldl InitEvent_Add ie ics) w = (ie @ ics, foldl (\<lambda>w c. c w) w (ie @ ics))"
    by (simp only: InitEvent_registered InitEvent_call_def InitEvent_range_foldl)
  have window: "WindowEvent_Call (foldl WindowEvent_Add we wcs) wn w
       = (we @ wcs, foldl (\<lambda>w c. c wn w) w (we @ wcs))"
    by (simp only: WindowEvent_registered WindowEvent_Call_def WindowEvent_range_foldl)
  have path: "PathEvent_call (foldl PathEvent_Add pe pcs) p w = (pe @ pcs, foldl (\<lambda>w c. c p w) w (pe @ pcs))"
    by (simp only: PathEvent_registered PathEvent_call_def PathEvent_range_foldl)
  have project: "ProjectEvent_call (foldl ProjectEvent_Add je jcs) wn p w
       = (je @ jcs, foldl (\<lambda>w c. c wn p w) w (je @ jcs))"
    by (simp only: ProjectEvent_registered ProjectEvent_call_def ProjectEvent_range_foldl)
  show ?thesis
    by (intro conjI view journal init window path project ViewEvent_registered InitEvent_registered
        WindowEvent_registered PathEvent_registered ProjectEvent_registered)
qed

text \<open>
  C8. Firing a multicast event whose sequence is empty invokes nothing: the world and
  the sequence are as before, and there is no error result.
\<close>

theorem multicast_Call_empty:
  "ViewEvent_Call [] v w = ([], w)
   \<and> InitEvent_call [] w = ([], w)
   \<and> WindowEvent_Call [] wn w = ([], w)
   \<and> PathEvent_call [] p w = ([], w)
   \<and> ProjectEvent_call [] wn p w = ([], w)"
  by (simp add: ViewEvent_Call_def InitEvent_call_def WindowEvent_Call_def PathEvent_call_def
      ProjectEvent_call_def)

text \<open>
  C9. Registration appends without looking at the sequence or at the callback:
  registering a callback twice leaves two entries at the end of the sequence, for each
  of the six families, and \<open>Add\<close> has no error result. Firing a multicast event
  afterwards invokes the callback twice, after the callbacks registered before. A
  resolution of a context query invokes a handler registered twice according to the
  answers: twice when the handlers before it and its own first invocation answer
  \<open>Unknown\<close>, once when the handlers before it answer \<open>Unknown\<close> and its first
  invocation answers a match or no match, and not at all when a handler before it
  answers a match or no match. That the resolution over the handlers before it returns
  \<open>Unknown\<close> says that each of them answered \<open>Unknown\<close>.
\<close>

theorem Add_twice:
  "ViewEvent_Add (ViewEvent_Add ve cb) cb = ve @ [cb, cb]
   \<and> QueryContextEvent_Add (QueryContextEvent_Add qe h) h = qe @ [h, h]
   \<and> InitEvent_Add (InitEvent_Add ie i) i = ie @ [i, i]
   \<and> WindowEvent_Add (WindowEvent_Add we wcb) wcb = we @ [wcb, wcb]
   \<and> PathEvent_Add (PathEvent_Add pe pcb) pcb = pe @ [pcb, pcb]
   \<and> ProjectEvent_Add (ProjectEvent_Add je jcb) jcb = je @ [jcb, jcb]
   \<and> ViewEvent_Call (ViewEvent_Add (ViewEvent_Add ve cb) cb) v w
       = (ve @ [cb, cb], cb v (cb v (snd (ViewEvent_Call ve v w))))
   \<and> calls (snd (ViewEvent_Call (ViewEvent_Add (ViewEvent_Add [] (spy name)) (spy name)) v s))
       = calls s @ [name, name]
   \<and> InitEvent_call (InitEvent_Add (InitEvent_Add ie i) i) w
       = (ie @ [i, i], i (i (snd (InitEvent_call ie w))))
   \<and> WindowEvent_Call (WindowEvent_Add (WindowEvent_Add we wcb) wcb) wn w
       = (we @ [wcb, wcb], wcb wn (wcb wn (snd (WindowEvent_Call we wn w))))
   \<and> PathEvent_call (PathEvent_Add (PathEvent_Add pe pcb) pcb) p w
       = (pe @ [pcb, pcb], pcb p (pcb p (snd (PathEvent_call pe p w))))
   \<and> ProjectEvent_call (ProjectEvent_Add (ProjectEvent_Add je jcb) jcb) wn p w
       = (je @ [jcb, jcb], jcb wn p (jcb wn p (snd (ProjectEvent_call je wn p w))))
   \<and> (QueryContextEvent_Call qe v key operator opd match_all w = (Unknown, qe, wa)
        \<and> h v key operator opd match_all wa = (Unknown, wb)
        \<and> h v key operator opd match_all wb = (r, wc)
       \<longrightarrow> QueryContextEvent_Call (QueryContextEvent_Add (QueryContextEvent_Add qe h) h)
             v key operator opd match_all w = (r, qe @ [h, h], wc))
   \<and> (QueryContextEvent_Call qe v key operator opd match_all w = (Unknown, qe, wa)
        \<and> h v key operator opd match_all wa = (r, wb) \<and> r \<noteq> Unknown
       \<longrightarrow> QueryContextEvent_Call (QueryContextEvent_Add (QueryContextEvent_Add qe h) h)
             v key operator opd match_all w = (r, qe @ [h, h], wb))
   \<and> (QueryContextEvent_Call qe v key operator opd match_all w = (r, qe, wa) \<and> r \<noteq> Unknown
       \<longrightarrow> QueryContextEvent_Call (QueryContextEvent_Add (QueryContextEvent_Add qe h) h)
             v key operator opd match_all w = (r, qe @ [h, h], wa))"
proof -
  have twice: "QueryContextEvent_Call (qe @ [h, h]) v key operator opd match_all w = (r, qe @ [h, h], wc)"
    if "QueryContextEvent_Call qe v key operator opd match_all w = (Unknown, qe, wa)"
      and "h v key operator opd match_all wa = (Unknown, wb)"
      and "h v key operator opd match_all wb = (r, wc)"
    using that
    by (simp add: QueryContextEvent_Call_append QueryContextEvent_Call_Cons QueryContextEvent_Call_Nil)
  have once: "QueryContextEvent_Call (qe @ [h, h]) v key operator opd match_all w = (r, qe @ [h, h], wb)"
    if "QueryContextEvent_Call qe v key operator opd match_all w = (Unknown, qe, wa)"
      and "h v key operator opd match_all wa = (r, wb)" and "r \<noteq> Unknown"
    using that
    by (simp add: QueryContextEvent_Call_append QueryContextEvent_Call_Cons)
  have never: "QueryContextEvent_Call (qe @ [h, h]) v key operator opd match_all w = (r, qe @ [h, h], wa)"
    if "QueryContextEvent_Call qe v key operator opd match_all w = (r, qe, wa)" and "r \<noteq> Unknown"
    using that
    by (simp add: QueryContextEvent_Call_append)
  have j: "calls (ViewEvent_range [spy name, spy name] v s) = calls s @ [name, name]"
    by (simp add: spy_def)
  have multicast: "ViewEvent_Add (ViewEvent_Add ve cb) cb = ve @ [cb, cb]
   \<and> QueryContextEvent_Add (QueryContextEvent_Add qe h) h = qe @ [h, h]
   \<and> InitEvent_Add (InitEvent_Add ie i) i = ie @ [i, i]
   \<and> WindowEvent_Add (WindowEvent_Add we wcb) wcb = we @ [wcb, wcb]
   \<and> PathEvent_Add (PathEvent_Add pe pcb) pcb = pe @ [pcb, pcb]
   \<and> ProjectEvent_Add (ProjectEvent_Add je jcb) jcb = je @ [jcb, jcb]
   \<and> ViewEvent_Call (ViewEvent_Add (ViewEvent_Add ve cb) cb) v w
       = (ve @ [cb, cb], cb v (cb v (snd (ViewEvent_Call ve v w))))
   \<and> calls (snd (ViewEvent_Call (ViewEvent_Add (ViewEvent_Add [] (spy name)) (spy name)) v s))
       = calls s @ [name, name]
   \<and> InitEvent_call (InitEvent_Add (InitEvent_Add ie i) i) w
       = (ie @ [i, i], i (i (snd (InitEvent_call ie w))))
   \<and> WindowEvent_Call (WindowEvent_Add (WindowEvent_Add we wcb) wcb) wn w
       = (we @ [wcb, wcb], wcb wn (wcb wn (snd (WindowEvent_Call we wn w))))
   \<and> PathEvent_call (PathEvent_Add (PathEvent_Add pe pcb) pcb) p w
       = (pe @ [pcb, pcb], pcb p (pcb p (snd (PathEvent_call pe p w))))
   \<and> ProjectEvent_call (ProjectEvent_Add (ProjectEvent_Add je jcb) jcb) wn p w
       = (je @ [jcb, jcb], jcb wn p (jcb wn p (snd (ProjectEvent_call je wn p w))))"
    using j
    by (simp add: ViewEvent_Add_def QueryContextEvent_Add_def InitEvent_Add_def WindowEvent_Add_def
        PathEvent_Add_def ProjectEvent_Add_def ViewEvent_Call_def InitEvent_call_def
        WindowEvent_Call_def PathEvent_call_def ProjectEvent_call_def ViewEvent_range_foldl
        InitEvent_range_foldl WindowEvent_range_foldl PathEvent_range_foldl ProjectEvent_range_foldl)
  have query: "(QueryContextEvent_Call qe v key operator opd match_all w = (Unknown, qe, wa)
        \<and> h v key operator opd match_all wa = (Unknown, wb)
        \<and> h v key operator opd match_all wb = (r, wc)
       \<longrightarrow> QueryContextEvent_Call (QueryContextEvent_Add (QueryContextEvent_Add qe h) h)
             v key operator opd match_all w = (r, qe @ [h, h], wc))
   \<and> (QueryContextEvent_Call qe v key operator opd match_all w = (Unknown, qe, wa)
        \<and> h v key operator opd match_all wa = (r, wb) \<and> r \<noteq> Unknown
       \<longrightarrow> QueryContextEvent_Call (QueryContextEvent_Add (QueryContextEvent_Add qe h) h)
             v key operator opd match_all w = (r, qe @ [h, h], wb))
   \<and> (QueryContextEvent_Call qe v key operator opd match_all w = (r, qe, wa) \<and> r \<noteq> Unknown
       \<longrightarrow> QueryContextEvent_Call (QueryContextEvent_Add (QueryContextEvent_Add qe h) h)
             v key operator opd match_all w = (r, qe @ [h, h], wa))"
    using twice once never by (auto simp add: QueryContextEvent_Add_def)
  from conjI [OF multicast query] show ?thesis
    unfolding conj_assoc .
qed

theorem Add_twice_witness:
  "QueryContextEvent_Call [H1] 0 ''vi_mode'' OpEqual VNil False (example_world False 0)
     = (Unknown, [H1], (example_world False 0)\<lparr>calls := [''H1'']\<rparr>)
   \<and> answering ''h'' Unknown 0 ''vi_mode'' OpEqual VNil False ((example_world False 0)\<lparr>calls := [''H1'']\<rparr>)
     = (Unknown, (example_world False 0)\<lparr>calls := [''H1'', ''h'']\<rparr>)
   \<and> answering ''h'' Unknown 0 ''vi_mode'' OpEqual VNil False
        ((example_world False 0)\<lparr>calls := [''H1'', ''h'']\<rparr>)
     = (Unknown, (example_world False 0)\<lparr>calls := [''H1'', ''h'', ''h'']\<rparr>)
   \<and> QueryContextEvent_Call
        (QueryContextEvent_Add (QueryContextEvent_Add [H1] (answering ''h'' Unknown)) (answering ''h'' Unknown))
        0 ''vi_mode'' OpEqual VNil False (example_world False 0)
     = (Unknown, [H1, answering ''h'' Unknown, answering ''h'' Unknown],
        (example_world False 0)\<lparr>calls := [''H1'', ''h'', ''h'']\<rparr>)
   \<and> H2 0 ''vi_mode'' OpEqual VNil False ((example_world False 0)\<lparr>calls := [''H1'']\<rparr>)
     = (True_qc, (example_world False 0)\<lparr>calls := [''H1'', ''H2'']\<rparr>)
   \<and> True_qc \<noteq> Unknown
   \<and> QueryContextEvent_Call (QueryContextEvent_Add (QueryContextEvent_Add [H1] H2) H2)
        0 ''vi_mode'' OpEqual VNil False (example_world False 0)
     = (True_qc, [H1, H2, H2], (example_world False 0)\<lparr>calls := [''H1'', ''H2'']\<rparr>)
   \<and> QueryContextEvent_Call [H3] 0 ''vi_mode'' OpEqual VNil False (example_world False 0)
     = (False_qc, [H3], (example_world False 0)\<lparr>calls := [''H3'']\<rparr>)
   \<and> False_qc \<noteq> Unknown
   \<and> QueryContextEvent_Call (QueryContextEvent_Add (QueryContextEvent_Add [H3] H1) H1)
        0 ''vi_mode'' OpEqual VNil False (example_world False 0)
     = (False_qc, [H3, H1, H1], (example_world False 0)\<lparr>calls := [''H3'']\<rparr>)"
  using Add_twice [where ve = "[]" and cb = "spy ''a''" and ie = "[]" and i = "\<lambda>w. w" and we = "[]"
      and wcb = "\<lambda>n w. w" and pe = "[]" and pcb = "\<lambda>p w. w" and je = "[]" and jcb = "\<lambda>n p w. w"
      and name = "''a''" and s = "example_world False 0" and wn = 0 and p = "''p''" and v = 0
      and key = "''vi_mode''" and operator = OpEqual and opd = VNil and match_all = False
      and w = "example_world False 0" and qe = "[H1]" and h = "answering ''h'' Unknown"
      and wa = "(example_world False 0)\<lparr>calls := [''H1'']\<rparr>"
      and wb = "(example_world False 0)\<lparr>calls := [''H1'', ''h'']\<rparr>" and r = Unknown
      and wc = "(example_world False 0)\<lparr>calls := [''H1'', ''h'', ''h'']\<rparr>"]
    Add_twice [where ve = "[]" and cb = "spy ''a''" and ie = "[]" and i = "\<lambda>w. w" and we = "[]"
      and wcb = "\<lambda>n w. w" and pe = "[]" and pcb = "\<lambda>p w. w" and je = "[]" and jcb = "\<lambda>n p w. w"
      and name = "''a''" and s = "example_world False 0" and wn = 0 and p = "''p''" and v = 0
      and key = "''vi_mode''" and operator = OpEqual and opd = VNil and match_all = False
      and w = "example_world False 0" and qe = "[H1]" and h = "H2"
      and wa = "(example_world False 0)\<lparr>calls := [''H1'']\<rparr>"
      and wb = "(example_world False 0)\<lparr>calls := [''H1'', ''H2'']\<rparr>" and r = True_qc
      and wc = "(example_world False 0)\<lparr>calls := [''H1'', ''H2'']\<rparr>"]
    Add_twice [where ve = "[]" and cb = "spy ''a''" and ie = "[]" and i = "\<lambda>w. w" and we = "[]"
      and wcb = "\<lambda>n w. w" and pe = "[]" and pcb = "\<lambda>p w. w" and je = "[]" and jcb = "\<lambda>n p w. w"
      and name = "''a''" and s = "example_world False 0" and wn = 0 and p = "''p''" and v = 0
      and key = "''vi_mode''" and operator = OpEqual and opd = VNil and match_all = False
      and w = "example_world False 0" and qe = "[H3]" and h = "H1"
      and wa = "(example_world False 0)\<lparr>calls := [''H3'']\<rparr>"
      and wb = "(example_world False 0)\<lparr>calls := [''H3'']\<rparr>" and r = False_qc
      and wc = "(example_world False 0)\<lparr>calls := [''H3'']\<rparr>"]
  by (simp add: QueryContextEvent_Call_Cons QueryContextEvent_Call_Nil H1_def H2_def H3_def answering_def
      example_world_def)

text \<open>
  For every event, then, the claim of two invocations fails: \<open>H2\<close> registered twice
  on a context query gives two entries and one invocation.
\<close>

theorem Add_twice_decisive_handler_once:
  "QueryContextEvent_Call (QueryContextEvent_Add (QueryContextEvent_Add [] H2) H2)
      0 ''vi_mode'' OpEqual VNil False (example_world False 0)
     = (True_qc, [H2, H2], (example_world False 0)\<lparr>calls := [''H2'']\<rparr>)
   \<and> calls (snd (snd (QueryContextEvent_Call (QueryContextEvent_Add (QueryContextEvent_Add [] H2) H2)
      0 ''vi_mode'' OpEqual VNil False (example_world False 0)))) \<noteq> [''H2'', ''H2'']"
  by (simp add: QueryContextEvent_Add_def QueryContextEvent_Call_Cons H2_def answering_def
      example_world_def)

end
